theory Spec2Isabelle
  imports Main
begin

section \<open>Python values and strings\<close>

text \<open>
  A Python \<open>str\<close> is a sequence of Unicode code points, and \<open>len\<close> counts code points.
  The model represents a string as the list of its code points, so that the length of the
  list is what \<open>len\<close> returns. \<open>py\<close> turns an ASCII literal into such a list.
\<close>

type_synonym pystr = "nat list"

definition py :: "string \<Rightarrow> pystr" where
  "py s = map of_char s"

definition newline :: nat where
  "newline = 10"

text \<open>
  The characters \<open>str.isspace\<close> accepts, which are the ones \<open>str.lstrip()\<close> removes:
  U+0009..U+000D, U+001C..U+0020, U+0085, U+00A0, U+1680, U+2000..U+200A, U+2028, U+2029,
  U+202F, U+205F and U+3000.
\<close>

definition isspace :: "nat \<Rightarrow> bool" where
  "isspace c \<longleftrightarrow>
     (9 \<le> c \<and> c \<le> 13) \<or> (28 \<le> c \<and> c \<le> 32) \<or> c = 133 \<or> c = 160 \<or> c = 5760 \<or>
     (8192 \<le> c \<and> c \<le> 8202) \<or> c = 8232 \<or> c = 8233 \<or> c = 8239 \<or> c = 8287 \<or> c = 12288"

definition lstrip :: "pystr \<Rightarrow> pystr" where
  "lstrip s = dropWhile isspace s"

text \<open>
  \<open>s.rfind(c, start, stop)\<close> for a one-character needle: the highest index \<open>i\<close> with
  \<open>start \<le> i < min stop (len s)\<close> and \<open>s[i] = c\<close>, or \<open>-1\<close>. The scan runs downwards from
  the end of the range.
\<close>

fun rfind_scan :: "nat \<Rightarrow> pystr \<Rightarrow> nat \<Rightarrow> nat \<Rightarrow> int" where
  "rfind_scan c s start 0 = - 1"
| "rfind_scan c s start (Suc i) =
     (if i < start then - 1
      else if s ! i = c then int i
      else rfind_scan c s start i)"

definition rfind :: "nat \<Rightarrow> pystr \<Rightarrow> nat \<Rightarrow> nat \<Rightarrow> int" where
  "rfind c s start stop = rfind_scan c s start (min stop (length s))"

text \<open>The slices \<open>xs[:k]\<close> and \<open>xs[k:]\<close>; a negative \<open>k\<close> counts from the end.\<close>

definition slice_to :: "'a list \<Rightarrow> int \<Rightarrow> 'a list" where
  "slice_to xs k = (if k < 0 then take (nat (int (length xs) + k)) xs else take (nat k) xs)"

definition slice_from :: "'a list \<Rightarrow> int \<Rightarrow> 'a list" where
  "slice_from xs k = (if k < 0 then drop (nat (int (length xs) + k)) xs else drop (nat k) xs)"


section \<open>Notifier: splitting a long message\<close>

text \<open>
  \<open>TelegramBot._send_long_message\<close> first cuts the text into parts:
  \<^verbatim>\<open>
    max_length = 4000
    parts = []
    while text:
        if len(text) <= max_length:
            parts.append(text)
            break
        split_pos = text.rfind('\n', 0, max_length)
        if split_pos == -1:
            split_pos = max_length
        parts.append(text[:split_pos])
        text = text[split_pos:].lstrip()
  \<close>
  \<open>split_pos\<close> is the cut position of one iteration, \<open>split_parts\<close> the list \<open>parts\<close> the
  loop leaves. \<open>hard_limit\<close> is the channel's ceiling that \<open>send_message\<close> tests.
\<close>

definition max_length :: nat where
  "max_length = 4000"

definition hard_limit :: nat where
  "hard_limit = 4096"

definition split_pos :: "pystr \<Rightarrow> int" where
  "split_pos s =
     (let split_pos = rfind newline s 0 max_length
      in if split_pos = - 1 then int max_length else split_pos)"

lemma rfind_scan_absent:
  "rfind_scan c s start n = - 1 \<longleftrightarrow> (\<forall>i. start \<le> i \<and> i < n \<longrightarrow> s ! i \<noteq> c)"
proof (induction n)
  case 0
  show ?case by simp
next
  case (Suc n)
  show ?case
  proof (cases "n < start")
    case True
    then show ?thesis by simp
  next
    case False
    then have sn: "start \<le> n" by simp
    show ?thesis
    proof (cases "s ! n = c")
      case True
      with sn show ?thesis by auto
    next
      case False
      have "(\<forall>i. start \<le> i \<and> i < Suc n \<longrightarrow> s ! i \<noteq> c) \<longleftrightarrow>
            (\<forall>i. start \<le> i \<and> i < n \<longrightarrow> s ! i \<noteq> c)"
        using False less_Suc_eq by auto
      with False sn Suc.IH show ?thesis by simp
    qed
  qed
qed

lemma rfind_scan_found:
  "rfind_scan c s start n \<noteq> - 1 \<Longrightarrow>
     \<exists>i. rfind_scan c s start n = int i \<and> start \<le> i \<and> i < n \<and> s ! i = c \<and>
         (\<forall>j. i < j \<and> j < n \<longrightarrow> s ! j \<noteq> c)"
proof (induction n)
  case 0
  then show ?case by simp
next
  case (Suc n)
  show ?case
  proof (cases "n < start")
    case True
    with Suc.prems show ?thesis by simp
  next
    case False
    then have sn: "start \<le> n" by simp
    show ?thesis
    proof (cases "s ! n = c")
      case True
      have q: "\<And>j. n < j \<Longrightarrow> j < Suc n \<Longrightarrow> False" by arith
      from True sn have "rfind_scan c s start (Suc n) = int n" by simp
      with True sn q show ?thesis by blast
    next
      case False
      with sn have eq: "rfind_scan c s start (Suc n) = rfind_scan c s start n" by simp
      with Suc.prems have "rfind_scan c s start n \<noteq> - 1" by simp
      from Suc.IH [OF this] obtain i where i: "rfind_scan c s start n = int i" "start \<le> i" "i < n"
        "s ! i = c" "\<forall>j. i < j \<and> j < n \<longrightarrow> s ! j \<noteq> c" by blast
      have "s ! j \<noteq> c" if "i < j" "j < Suc n" for j
      proof (cases "j = n")
        case True
        with False show ?thesis by simp
      next
        case False
        with that have "j < n" by simp
        with i(5) that(1) show ?thesis by blast
      qed
      moreover from i(3) have "i < Suc n" by simp
      ultimately show ?thesis unfolding eq using i(1,2,4) by blast
    qed
  qed
qed

lemma rfind_absent:
  "rfind c s start stop = - 1 \<longleftrightarrow>
     (\<forall>i. start \<le> i \<and> i < stop \<and> i < length s \<longrightarrow> s ! i \<noteq> c)"
  by (simp add: rfind_def rfind_scan_absent)

lemma rfind_found:
  assumes "rfind c s start stop \<noteq> - 1"
  shows "\<exists>i. rfind c s start stop = int i \<and> start \<le> i \<and> i < stop \<and> i < length s \<and>
           s ! i = c \<and> (\<forall>j. i < j \<and> j < stop \<and> j < length s \<longrightarrow> s ! j \<noteq> c)"
proof -
  from assms have "rfind_scan c s start (min stop (length s)) \<noteq> - 1" by (simp add: rfind_def)
  from rfind_scan_found [OF this] show ?thesis by (simp add: rfind_def)
qed

lemma rfind_none: "c \<notin> set (take stop s) \<Longrightarrow> rfind c s 0 stop = - 1"
  unfolding rfind_absent by (metis in_set_conv_nth length_take min_less_iff_conj nth_take)

lemma rfind_some: "c \<in> set (take stop s) \<Longrightarrow> rfind c s 0 stop \<noteq> - 1"
  unfolding rfind_absent by (metis in_set_conv_nth length_take min_less_iff_conj nth_take le0)

lemma split_pos_range: "0 \<le> split_pos s \<and> split_pos s \<le> int max_length"
proof (cases "rfind newline s 0 max_length = - 1")
  case True
  then show ?thesis by (simp add: split_pos_def)
next
  case False
  from rfind_found [OF this] obtain i where "rfind newline s 0 max_length = int i" "i < max_length"
    by blast
  then show ?thesis by (simp add: split_pos_def)
qed

lemma isspace_newline: "isspace newline"
  by (simp add: isspace_def newline_def)

lemma length_lstrip: "length (lstrip s) \<le> length s"
  by (simp add: lstrip_def length_dropWhile_le)

lemma split_pos_zero:
  assumes "split_pos s = 0"
  shows "s ! 0 = newline"
proof -
  from assms have nf: "rfind newline s 0 max_length \<noteq> - 1"
    by (auto simp: split_pos_def Let_def max_length_def split: if_splits)
  then have "split_pos s = rfind newline s 0 max_length" by (simp add: split_pos_def)
  with assms have z: "rfind newline s 0 max_length = 0" by simp
  from rfind_found [OF nf] obtain i where "rfind newline s 0 max_length = int i" "s ! i = newline"
    by blast
  with z show ?thesis by simp
qed

lemma remainder_shrinks:
  assumes "max_length < length s"
  shows "length (lstrip (slice_from s (split_pos s))) < length s"
proof (cases "split_pos s = 0")
  case False
  with split_pos_range [of s] have "0 < split_pos s" by simp
  with assms have "length (slice_from s (split_pos s)) < length s"
    by (simp add: slice_from_def)
  with length_lstrip [of "slice_from s (split_pos s)"] show ?thesis by simp
next
  case True
  from split_pos_zero [OF True] have "s ! 0 = newline" .
  moreover from assms obtain c rest where t: "s = c # rest" by (cases s) auto
  ultimately have "lstrip (slice_from s (split_pos s)) = lstrip rest"
    using True by (simp add: slice_from_def lstrip_def isspace_newline)
  with length_lstrip [of rest] t show ?thesis by simp
qed

function split_parts :: "pystr \<Rightarrow> pystr list" where
  "split_parts s =
     (if s = [] then []
      else if length s \<le> max_length then [s]
      else slice_to s (split_pos s) # split_parts (lstrip (slice_from s (split_pos s))))"
  by pat_completeness auto
termination
  by (relation "measure length") (simp_all add: remainder_shrinks)

declare split_parts.simps [simp del]

lemma split_parts_bound: "part \<in> set (split_parts s) \<Longrightarrow> length part \<le> max_length"
proof (induction s rule: split_parts.induct)
  case (1 s)
  show ?case
  proof (cases "s = [] \<or> length s \<le> max_length")
    case True
    with "1.prems" show ?thesis by (auto simp: split_parts.simps [of s] split: if_splits)
  next
    case False
    with "1.prems" have "part = slice_to s (split_pos s) \<or>
        part \<in> set (split_parts (lstrip (slice_from s (split_pos s))))"
      by (auto simp: split_parts.simps [of s])
    then show ?thesis
    proof
      assume "part = slice_to s (split_pos s)"
      with split_pos_range [of s] show ?thesis by (auto simp: slice_to_def)
    next
      assume "part \<in> set (split_parts (lstrip (slice_from s (split_pos s))))"
      with "1.IH" False show ?thesis by simp
    qed
  qed
qed

lemma split_parts_count: "length (split_parts s) \<le> length s"
proof (induction s rule: split_parts.induct)
  case (1 s)
  show ?case
  proof (cases "s = [] \<or> length s \<le> max_length")
    case True
    then show ?thesis by (auto simp: split_parts.simps [of s] Suc_le_eq)
  next
    case False
    then have long: "max_length < length s" by simp
    from False have "length (split_parts s) =
        Suc (length (split_parts (lstrip (slice_from s (split_pos s)))))"
      by (simp add: split_parts.simps [of s])
    moreover from "1.IH" False
    have "length (split_parts (lstrip (slice_from s (split_pos s))))
        \<le> length (lstrip (slice_from s (split_pos s)))" by simp
    ultimately show ?thesis using remainder_shrinks [OF long] by simp
  qed
qed

lemma split_pos_cut:
  "if newline \<in> set (take max_length s)
   then 0 \<le> split_pos s \<and> split_pos s < int max_length \<and> nat (split_pos s) < length s \<and>
        s ! nat (split_pos s) = newline \<and>
        (\<forall>j. nat (split_pos s) < j \<and> j < max_length \<and> j < length s \<longrightarrow> s ! j \<noteq> newline)
   else split_pos s = int max_length"
proof (cases "newline \<in> set (take max_length s)")
  case False
  then show ?thesis by (simp add: split_pos_def rfind_none)
next
  case True
  from rfind_some [OF True] have nf: "rfind newline s 0 max_length \<noteq> - 1" .
  then have sp: "split_pos s = rfind newline s 0 max_length" by (simp add: split_pos_def)
  from rfind_found [OF nf] obtain i where i: "rfind newline s 0 max_length = int i"
    "i < max_length" "i < length s" "s ! i = newline"
    "\<forall>j. i < j \<and> j < max_length \<and> j < length s \<longrightarrow> s ! j \<noteq> newline" by blast
  from sp i(1) have "nat (split_pos s) = i" "split_pos s = int i" by simp_all
  with i True show ?thesis by simp
qed

lemma split_pos_hard_cut: "split_pos (replicate 4001 97) = 4000"
  by (simp add: split_pos_def rfind_none newline_def max_length_def)

lemma split_parts_hard_cut: "split_parts (replicate 4001 97) = [replicate 4000 97, [97]]"
proof -
  have r: "lstrip (slice_from (replicate 4001 97) 4000) = [97]"
    by (simp add: slice_from_def lstrip_def isspace_def)
  have "split_parts [97] = [[97]]"
    by (simp add: split_parts.simps [of "[97]"] max_length_def)
  then show ?thesis
    by (simp add: split_parts.simps [of "replicate 4001 97"] split_pos_hard_cut r max_length_def
        slice_to_def)
qed

lemma split_pos_leading_newline: "split_pos (10 # replicate 4000 97) = 0"
proof -
  let ?s = "10 # replicate 4000 (97::nat)"
  have "newline \<in> set (take max_length ?s)" by (simp add: newline_def max_length_def)
  with split_pos_cut [of ?s] have c: "0 \<le> split_pos ?s" "nat (split_pos ?s) < length ?s"
    "?s ! nat (split_pos ?s) = newline" by simp_all
  have "nat (split_pos ?s) = 0"
  proof (rule ccontr)
    assume "nat (split_pos ?s) \<noteq> 0"
    with c(2) have "?s ! nat (split_pos ?s) = 97" by (simp add: nth_Cons')
    with c(3) show False by (simp add: newline_def)
  qed
  with c(1) show ?thesis by simp
qed


text \<open>
  C3 (size bound of splitting). Every part the split loop produces has at most
  \<open>max_length = 4000\<close> characters, hence at most the channel's ceiling of 4096. When the
  text is longer than 4000 characters, the first part is the text up to the cut position and
  the loop goes on with the left-stripped rest; the cut position is the index of the last
  newline among the first 4000 characters when there is one, and 4000 otherwise.
\<close>

theorem split_size_bound:
  "(\<forall>part \<in> set (split_parts s). length part \<le> max_length \<and> length part \<le> hard_limit) \<and>
   max_length = 4000 \<and> hard_limit = 4096 \<and>
   (max_length < length s \<longrightarrow>
      split_parts s = slice_to s (split_pos s) # split_parts (lstrip (slice_from s (split_pos s))) \<and>
      (if newline \<in> set (take max_length s)
       then 0 \<le> split_pos s \<and> split_pos s < int max_length \<and> nat (split_pos s) < length s \<and>
            s ! nat (split_pos s) = newline \<and>
            (\<forall>j. nat (split_pos s) < j \<and> j < max_length \<and> j < length s \<longrightarrow> s ! j \<noteq> newline)
       else split_pos s = int max_length))"
proof -
  have m: "max_length = 4000" "hard_limit = 4096"
    by (simp_all add: max_length_def hard_limit_def)
  have "length part \<le> max_length \<and> length part \<le> hard_limit" if "part \<in> set (split_parts s)" for part
    using split_parts_bound [OF that] unfolding m by simp
  then have a: "\<forall>part \<in> set (split_parts s). length part \<le> max_length \<and> length part \<le> hard_limit"
    by blast
  have b: "split_parts s = slice_to s (split_pos s) # split_parts (lstrip (slice_from s (split_pos s)))"
    if "max_length < length s"
  proof -
    from that have "s \<noteq> []" "\<not> length s \<le> max_length" by auto
    then show ?thesis by (simp add: split_parts.simps [of s])
  qed
  from a m b split_pos_cut [of s] show ?thesis by blast
qed

theorem split_size_bound_witness:
  "max_length < length (replicate 4001 (97::nat)) \<and>
   newline \<notin> set (take max_length (replicate 4001 (97::nat))) \<and>
   split_pos (replicate 4001 97) = int max_length \<and>
   split_parts (replicate 4001 97) = [replicate 4000 97, [97]] \<and>
   length (replicate 4000 (97::nat)) \<le> hard_limit \<and> length [97::nat] \<le> hard_limit"
proof -
  have a: "max_length < length (replicate 4001 (97::nat))" by (simp add: max_length_def)
  have b: "newline \<notin> set (take max_length (replicate 4001 (97::nat)))"
    by (simp add: max_length_def newline_def)
  from split_size_bound [of "replicate 4001 97"] a b
  have "split_pos (replicate 4001 97) = int max_length" by simp
  moreover from split_size_bound [of "replicate 4001 97"]
  have "\<forall>part \<in> set (split_parts (replicate 4001 97)). length part \<le> hard_limit" by blast
  then have "length (replicate 4000 (97::nat)) \<le> hard_limit \<and> length [97::nat] \<le> hard_limit"
    unfolding split_parts_hard_cut by simp
  ultimately show ?thesis using a b split_parts_hard_cut by blast
qed


text \<open>
  C10 (termination of the split loop). For a text longer than 4000 characters, the cut
  position is positive, or the text begins with a newline and the left strip after the cut
  removes it; either way the text the loop continues with is strictly shorter. So the loop
  is a total function (its defining equation holds for every text), and it produces at most
  as many parts as the text has characters.
\<close>

theorem split_terminates:
  "(max_length < length s \<longrightarrow>
      (0 < split_pos s \<or>
       (split_pos s = 0 \<and> s ! 0 = newline \<and> isspace newline \<and>
        lstrip (slice_from s (split_pos s)) = lstrip (tl s))) \<and>
      length (lstrip (slice_from s (split_pos s))) < length s) \<and>
   split_parts s =
     (if s = [] then []
      else if length s \<le> max_length then [s]
      else slice_to s (split_pos s) # split_parts (lstrip (slice_from s (split_pos s)))) \<and>
   length (split_parts s) \<le> length s"
proof -
  have "0 < split_pos s \<or>
       (split_pos s = 0 \<and> s ! 0 = newline \<and> isspace newline \<and>
        lstrip (slice_from s (split_pos s)) = lstrip (tl s))" if long: "max_length < length s"
  proof (cases "split_pos s = 0")
    case False
    with split_pos_range [of s] show ?thesis by simp
  next
    case True
    from split_pos_zero [OF True] have n: "s ! 0 = newline" .
    from long obtain c rest where t: "s = c # rest" by (cases s) auto
    with n True have "lstrip (slice_from s (split_pos s)) = lstrip (tl s)"
      by (simp add: slice_from_def lstrip_def isspace_newline)
    with True n show ?thesis by (simp add: isspace_newline)
  qed
  with remainder_shrinks [of s] split_parts_count [of s] split_parts.simps [of s]
  show ?thesis by blast
qed

theorem split_terminates_witness:
  "max_length < length (10 # replicate 4000 (97::nat)) \<and>
   split_pos (10 # replicate 4000 97) = 0 \<and>
   (10 # replicate 4000 (97::nat)) ! 0 = newline \<and>
   lstrip (slice_from (10 # replicate 4000 97) (split_pos (10 # replicate 4000 97)))
     = lstrip (tl (10 # replicate 4000 97)) \<and>
   length (lstrip (slice_from (10 # replicate 4000 97) (split_pos (10 # replicate 4000 97))))
     < length (10 # replicate 4000 (97::nat))"
proof -
  have a: "max_length < length (10 # replicate 4000 (97::nat))" by (simp add: max_length_def)
  have z: "\<not> 0 < split_pos (10 # replicate 4000 97)"
    using split_pos_leading_newline by simp
  from split_terminates [of "10 # replicate 4000 97"] a
  have "(0 < split_pos (10 # replicate 4000 97) \<or>
       (split_pos (10 # replicate 4000 97) = 0 \<and> (10 # replicate 4000 (97::nat)) ! 0 = newline \<and>
        isspace newline \<and>
        lstrip (slice_from (10 # replicate 4000 97) (split_pos (10 # replicate 4000 97)))
          = lstrip (tl (10 # replicate 4000 97)))) \<and>
      length (lstrip (slice_from (10 # replicate 4000 97) (split_pos (10 # replicate 4000 97))))
        < length (10 # replicate 4000 (97::nat))" by blast
  with a z show ?thesis by blast
qed

section \<open>Python values\<close>

text \<open>
  The records the program handles are Python dictionaries decoded from JSON. A value is
  \<open>None\<close>, a bool, an int, a str, a list or a dict; a dict is the list of its items, looked
  up with \<open>map_of\<close>. JSON numbers with a fraction (Python floats) are not modelled.
  \<open>dict_get d k dflt\<close> is \<open>d.get(k, dflt)\<close> and \<open>truthy\<close> is Python's truth value, as tested
  by \<open>if not x\<close>.
\<close>

datatype pyval =
    PNone
  | PBool bool
  | PInt int
  | PStr pystr
  | PList "pyval list"
  | PDict "(pystr \<times> pyval) list"

type_synonym pydict = "(pystr \<times> pyval) list"

definition dict_get :: "pydict \<Rightarrow> pystr \<Rightarrow> pyval \<Rightarrow> pyval" where
  "dict_get d k dflt = (case map_of d k of None \<Rightarrow> dflt | Some v \<Rightarrow> v)"

fun truthy :: "pyval \<Rightarrow> bool" where
  "truthy PNone \<longleftrightarrow> False"
| "truthy (PBool b) \<longleftrightarrow> b"
| "truthy (PInt n) \<longleftrightarrow> n \<noteq> 0"
| "truthy (PStr s) \<longleftrightarrow> s \<noteq> []"
| "truthy (PList xs) \<longleftrightarrow> xs \<noteq> []"
| "truthy (PDict d) \<longleftrightarrow> d \<noteq> []"

text \<open>
  \<open>str\<close> and the formatting of a value inside an f-string: \<open>None\<close>, bools, ints (in decimal)
  and strings are written out; the \<open>repr\<close> of a list or of a dict is a parameter.
\<close>

fun str_nat :: "nat \<Rightarrow> pystr" where
  "str_nat n = (if n < 10 then [48 + n] else str_nat (n div 10) @ [48 + n mod 10])"

declare str_nat.simps [simp del]

definition str_int :: "int \<Rightarrow> pystr" where
  "str_int n = (if n < 0 then 45 # str_nat (nat (- n)) else str_nat (nat n))"

definition py_str :: "(pyval \<Rightarrow> pystr) \<Rightarrow> pyval \<Rightarrow> pystr" where
  "py_str repr v =
     (case v of
        PNone \<Rightarrow> py ''None''
      | PBool b \<Rightarrow> (if b then py ''True'' else py ''False'')
      | PInt n \<Rightarrow> str_int n
      | PStr s \<Rightarrow> s
      | _ \<Rightarrow> repr v)"

section \<open>Notifier: escaping and sending\<close>

text \<open>
  \<open>TelegramBot._escape_html\<close>:
  \<^verbatim>\<open>
    if not text:
        return ""
    text = str(text)
    text = text.replace('&', '&amp;')
    text = text.replace('<', '&lt;')
    text = text.replace('>', '&gt;')
    return text
  \<close>
  \<open>replace_char\<close> is \<open>str.replace\<close> for a one-character pattern.
\<close>

definition replace_char :: "nat \<Rightarrow> pystr \<Rightarrow> pystr \<Rightarrow> pystr" where
  "replace_char old new s = concat (map (\<lambda>c. if c = old then new else [c]) s)"

definition escape_html :: "(pyval \<Rightarrow> pystr) \<Rightarrow> pyval \<Rightarrow> pystr" where
  "escape_html repr v =
     (if \<not> truthy v then []
      else
        (let s = py_str repr v;
             s = replace_char 38 (py ''&amp;'') s;
             s = replace_char 60 (py ''&lt;'') s;
             s = replace_char 62 (py ''&gt;'') s
         in s))"

text \<open>
  \<open>TelegramBot.send_message\<close> and the sending loop of \<open>_send_long_message\<close>. The channel is
  the environment: \<open>ch log p\<close> tells whether the request with payload \<open>p\<close> succeeds after the
  requests of \<open>log\<close> have been made (\<open>False\<close> stands for \<open>requests.RequestException\<close>, which
  \<open>send_message\<close> turns into the result \<open>False\<close>). The state is the list of the payloads posted
  so far. \<open>send_message\<close> hands a text longer than 4096 characters to \<open>_send_long_message\<close>,
  which calls \<open>send_message\<close> on each part and stops at the first failure: the two functions
  are mutually recursive, and they terminate because no part is longer than 4000 characters.
  The pauses between messages (\<open>time.sleep\<close>) change no state and are left out.
\<close>

record telegram_bot =
  bot_token :: pystr
  chat_id :: pystr

record payload =
  payload_chat_id :: pystr
  payload_text :: pystr
  payload_parse_mode :: pystr
  disable_web_page_preview :: bool

type_synonym channel = "payload list \<Rightarrow> payload \<Rightarrow> bool"

definition parts_weight :: "pystr list \<Rightarrow> nat" where
  "parts_weight parts =
     sum_list (map (\<lambda>p. if hard_limit < length p then length (split_parts p) + 2 else 1) parts)"

lemma parts_weight_split: "parts_weight (split_parts s) = length (split_parts s)"
proof -
  have "\<forall>p \<in> set ps. length p \<le> max_length \<Longrightarrow> parts_weight ps = length ps" for ps
    by (induction ps) (auto simp: parts_weight_def max_length_def hard_limit_def)
  with split_parts_bound show ?thesis by blast
qed

function send_message :: "channel \<Rightarrow> telegram_bot \<Rightarrow> pystr \<Rightarrow> pystr \<Rightarrow> payload list \<Rightarrow> bool \<times> payload list"
  and send_parts :: "channel \<Rightarrow> telegram_bot \<Rightarrow> pystr list \<Rightarrow> pystr \<Rightarrow> payload list \<Rightarrow> bool \<times> payload list"
where
  "send_message ch tb s parse_mode log =
     (if hard_limit < length s then send_parts ch tb (split_parts s) parse_mode log
      else
        (let p = \<lparr>payload_chat_id = chat_id tb, payload_text = s, payload_parse_mode = parse_mode,
                   disable_web_page_preview = True\<rparr>
         in (ch log p, log @ [p])))"
| "send_parts ch tb [] parse_mode log = (True, log)"
| "send_parts ch tb (part # parts) parse_mode log =
     (case send_message ch tb part parse_mode log of
        (False, log') \<Rightarrow> (False, log')
      | (True, log') \<Rightarrow> send_parts ch tb parts parse_mode log')"
  by pat_completeness auto
termination
  apply (relation "measure (\<lambda>x. case x of
      Inl (ch, tb, s, pm, log) \<Rightarrow> parts_weight [s]
    | Inr (ch, tb, parts, pm, log) \<Rightarrow> Suc (parts_weight parts))")
     apply (simp_all add: parts_weight_split)
   apply (simp_all add: parts_weight_def)
  done

declare send_message.simps [simp del]


definition format_project_entry :: "(pyval \<Rightarrow> pystr) \<Rightarrow> int \<Rightarrow> pydict \<Rightarrow> pystr" where
  "format_project_entry repr i project =
     (let name = escape_html repr (dict_get project (py ''name'')
                   (PStr [1041, 1077, 1079, 32, 1085, 1072, 1079, 1074, 1072, 1085, 1080, 1103]));
          price_limit = dict_get project (py ''price_limit'') (PStr (py ''N/A''));
          possible_price = dict_get project (py ''possible_price_limit'') (PStr (py ''N/A''));
          url = dict_get project (py ''url'') (PStr [])
      in [newline] @ str_int i @ py ''. <b>'' @ name @ py ''</b>'' @ [newline] @
         py ''   '' @ py_str repr price_limit @ py '' - '' @ py_str repr possible_price @
         [32, 8381, newline] @
         py ''   <a href='' @ [34] @ py_str repr url @ [34] @ py ''>'' @
         [1054, 1090, 1082, 1088, 1099, 1090, 1100] @ py ''</a>'' @ [newline])"

fun format_entries :: "(pyval \<Rightarrow> pystr) \<Rightarrow> int \<Rightarrow> pydict list \<Rightarrow> pystr list" where
  "format_entries repr i [] = []"
| "format_entries repr i (project # projects) =
     format_project_entry repr i project # format_entries repr (i + 1) projects"

definition format_projects_batch :: "(pyval \<Rightarrow> pystr) \<Rightarrow> pydict list \<Rightarrow> int \<Rightarrow> pystr" where
  "format_projects_batch repr projects start_num =
     concat
       ((py ''<b>'' @ [1053, 1086, 1074, 1099, 1077, 32, 1087, 1088, 1086, 1077, 1082, 1090, 1099, 32, 40] @
         str_int start_num @ py ''-'' @ str_int (start_num + int (length projects) - 1) @
         py ''):</b>'' @ [newline])
        # format_entries repr start_num projects)"

text \<open>
  The exceptions of the model. \<open>TelegramBot.send_projects_batch\<close>:
  \<^verbatim>\<open>
    sent_count = 0
    for i in range(0, len(projects), batch_size):
        batch = projects[i:i + batch_size]
        message = self._format_projects_batch(batch, i + 1)
        if self.send_message(message):
            sent_count += len(batch)
    return sent_count
  \<close>
  \<open>range\<close> raises \<open>ValueError\<close> for the step 0 and is empty for a negative step.
\<close>

datatype error =
    ValueError
  | AttributeError
  | TypeError
  | KeyError
  | JSONDecodeError
  | RecursionError
  | IntegrityError
  | InterfaceError
  | OverflowError

text \<open>range(0, n, step) for a positive step.\<close>

definition range_step :: "nat \<Rightarrow> nat \<Rightarrow> nat list" where
  "range_step n step = map (\<lambda>k. k * step) [0 ..< (n + step - 1) div step]"

fun send_batches ::
  "channel \<Rightarrow> telegram_bot \<Rightarrow> (pyval \<Rightarrow> pystr) \<Rightarrow> pydict list \<Rightarrow> nat \<Rightarrow> nat list \<Rightarrow>
     nat \<Rightarrow> payload list \<Rightarrow> nat \<times> payload list" where
  "send_batches ch tb repr projects batch_size [] sent_count log = (sent_count, log)"
| "send_batches ch tb repr projects batch_size (i # is) sent_count log =
     (let batch = take batch_size (drop i projects);
          message = format_projects_batch repr batch (int i + 1)
      in case send_message ch tb message (py ''HTML'') log of
           (True, log') \<Rightarrow>
             send_batches ch tb repr projects batch_size is (sent_count + length batch) log'
         | (False, log') \<Rightarrow>
             send_batches ch tb repr projects batch_size is sent_count log')"

definition send_projects_batch ::
  "channel \<Rightarrow> telegram_bot \<Rightarrow> (pyval \<Rightarrow> pystr) \<Rightarrow> pydict list \<Rightarrow> int \<Rightarrow> payload list \<Rightarrow>
     error + nat \<times> payload list" where
  "send_projects_batch ch tb repr projects batch_size log =
     (if batch_size = 0 then Inl ValueError
      else if batch_size < 0 then Inr (0, log)
      else Inr (send_batches ch tb repr projects (nat batch_size)
                  (range_step (length projects) (nat batch_size)) 0 log))"









lemma send_message_short:
  "length s \<le> hard_limit \<Longrightarrow>
     send_message ch tb s pm log =
       (ch log \<lparr>payload_chat_id = chat_id tb, payload_text = s, payload_parse_mode = pm,
                 disable_web_page_preview = True\<rparr>,
        log @ [\<lparr>payload_chat_id = chat_id tb, payload_text = s, payload_parse_mode = pm,
                 disable_web_page_preview = True\<rparr>])"
  by (simp add: send_message.simps Let_def)








text \<open>
  The description of batch delivery that the count is compared with: \<open>chunks n xs\<close> cuts
  \<open>xs\<close> into consecutive chunks of \<open>n\<close> elements (the last one may be shorter),
  \<open>deliver_chunks\<close> formats and sends the chunks in order and returns the outcome of each
  send, and \<open>delivered_count\<close> adds up the sizes of the chunks whose send succeeded.
\<close>

function chunks :: "nat \<Rightarrow> 'a list \<Rightarrow> 'a list list" where
  "chunks n xs = (if n = 0 \<or> xs = [] then [] else take n xs # chunks n (drop n xs))"
  by pat_completeness auto
termination
  by (relation "measure (\<lambda>(n, xs). length xs)") auto

declare chunks.simps [simp del]

fun deliver_chunks ::
  "channel \<Rightarrow> telegram_bot \<Rightarrow> (pyval \<Rightarrow> pystr) \<Rightarrow> pydict list list \<Rightarrow> int \<Rightarrow> payload list \<Rightarrow>
     bool list \<times> payload list" where
  "deliver_chunks ch tb repr [] start log = ([], log)"
| "deliver_chunks ch tb repr (c # cs) start log =
     (case send_message ch tb (format_projects_batch repr c start) (py ''HTML'') log of
        (ok, log') \<Rightarrow>
          (case deliver_chunks ch tb repr cs (start + int (length c)) log' of
             (oks, log'') \<Rightarrow> (ok # oks, log'')))"

definition delivered_count :: "'a list list \<Rightarrow> bool list \<Rightarrow> nat" where
  "delivered_count cs oks = sum_list (map (\<lambda>(c, ok). if ok then length c else 0) (zip cs oks))"

definition send_projects_batch_default ::
  "channel \<Rightarrow> telegram_bot \<Rightarrow> (pyval \<Rightarrow> pystr) \<Rightarrow> pydict list \<Rightarrow> payload list \<Rightarrow>
     error + nat \<times> payload list" where
  "send_projects_batch_default ch tb repr projects log =
     send_projects_batch ch tb repr projects 5 log"

lemma chunks_Nil: "chunks n [] = []"
  by (simp add: chunks.simps [of n "[]"])

lemma chunks_step: "0 < n \<Longrightarrow> xs \<noteq> [] \<Longrightarrow> chunks n xs = take n xs # chunks n (drop n xs)"
  by (simp add: chunks.simps [of n xs])

lemma chunks_concat: "0 < n \<Longrightarrow> concat (chunks n xs) = xs"
proof (induction n xs rule: chunks.induct)
  case (1 n xs)
  show ?case
  proof (cases "xs = []")
    case True
    then show ?thesis by (simp add: chunks_Nil)
  next
    case False
    with "1.prems" "1.IH" have "concat (chunks n (drop n xs)) = drop n xs" by simp
    with False "1.prems" show ?thesis by (simp add: chunks_step)
  qed
qed

lemma chunks_sizes: "c \<in> set (chunks n xs) \<Longrightarrow> c \<noteq> [] \<and> length c \<le> n"
proof (induction n xs rule: chunks.induct)
  case (1 n xs)
  show ?case
  proof (cases "n = 0 \<or> xs = []")
    case True
    with "1.prems" show ?thesis by (simp add: chunks.simps [of n xs])
  next
    case False
    with "1.prems" have "c = take n xs \<or> c \<in> set (chunks n (drop n xs))"
      by (simp add: chunks.simps [of n xs])
    then show ?thesis
    proof
      assume "c = take n xs"
      with False show ?thesis by simp
    next
      assume "c \<in> set (chunks n (drop n xs))"
      with "1.IH" False show ?thesis by simp
    qed
  qed
qed

lemma deliver_chunks_length: "length (fst (deliver_chunks ch tb repr cs start log)) = length cs"
proof (induction cs arbitrary: start log)
  case Nil
  show ?case by simp
next
  case (Cons c cs)
  obtain ok log' where s: "send_message ch tb (format_projects_batch repr c start) (py ''HTML'') log = (ok, log')"
    by (cases "send_message ch tb (format_projects_batch repr c start) (py ''HTML'') log") auto
  obtain oks log'' where d: "deliver_chunks ch tb repr cs (start + int (length c)) log' = (oks, log'')"
    by (cases "deliver_chunks ch tb repr cs (start + int (length c)) log'") auto
  from Cons.IH [of "start + int (length c)" log'] d have "length oks = length cs" by simp
  with s d show ?case by simp
qed

lemma delivered_count_le: "delivered_count cs oks \<le> length (concat cs)"
proof (induction cs arbitrary: oks)
  case Nil
  show ?case by (simp add: delivered_count_def)
next
  case (Cons c cs)
  show ?case
  proof (cases oks)
    case Nil
    then show ?thesis by (simp add: delivered_count_def)
  next
    case (Cons ok oks')
    with Cons.IH [of oks'] show ?thesis by (simp add: delivered_count_def)
  qed
qed

lemma ceil_index: "0 < bs \<Longrightarrow> k < (n + bs - 1) div bs \<longleftrightarrow> k * bs < (n::nat)"
proof -
  assume bs: "0 < bs"
  have "k < (n + bs - 1) div bs \<longleftrightarrow> Suc k \<le> (n + bs - 1) div bs" by auto
  also from bs have "\<dots> \<longleftrightarrow> Suc k * bs \<le> n + bs - 1" by (simp add: less_eq_div_iff_mult_less_eq)
  also from bs have "\<dots> \<longleftrightarrow> k * bs < n" by auto
  finally show ?thesis .
qed


lemma delivered_count_Cons:
  "delivered_count (c # cs) (ok # oks) = (if ok then length c else 0) + delivered_count cs oks"
  by (simp add: delivered_count_def)

lemma send_batches_chunks:
  assumes bs: "0 < bs"
  shows "send_batches ch tb repr projects bs
           (map (\<lambda>j. j * bs) [k ..< (length projects + bs - 1) div bs]) sent log =
         (case deliver_chunks ch tb repr (chunks bs (drop (k * bs) projects)) (int (k * bs) + 1) log of
            (oks, log') \<Rightarrow> (sent + delivered_count (chunks bs (drop (k * bs) projects)) oks, log'))"
proof (induction "(length projects + bs - 1) div bs - k" arbitrary: k sent log)
  case 0
  then have ge: "\<not> k < (length projects + bs - 1) div bs" by simp
  with ceil_index [OF bs, of k "length projects"] have "length projects \<le> k * bs" by simp
  then have "drop (k * bs) projects = []" by simp
  moreover from ge have "(length projects + bs - 1) div bs \<le> k" by simp
  ultimately show ?case by (simp add: chunks_Nil delivered_count_def)
next
  case (Suc d)
  let ?m = "(length projects + bs - 1) div bs"
  let ?rest = "drop (k * bs) projects"
  let ?batch = "take bs ?rest"
  let ?cs = "chunks bs (drop (Suc k * bs) projects)"
  from Suc.hyps(2) have lt: "k < ?m" by simp
  with ceil_index [OF bs, of k "length projects"] have kn: "k * bs < length projects" by simp
  then have ne: "?rest \<noteq> []" by simp
  have dd: "drop bs ?rest = drop (Suc k * bs) projects" by (simp add: add.commute)
  from chunks_step [OF bs ne] dd have cs: "chunks bs ?rest = ?batch # ?cs" by simp
  from lt have up: "[k ..< ?m] = k # [Suc k ..< ?m]" by (simp add: upt_conv_Cons)
  obtain ok log1 where sm:
    "send_message ch tb (format_projects_batch repr ?batch (int (k * bs) + 1)) (py ''HTML'') log = (ok, log1)"
    by (cases "send_message ch tb (format_projects_batch repr ?batch (int (k * bs) + 1)) (py ''HTML'') log") auto
  from Suc.hyps(2) have d: "d = ?m - Suc k" by simp
  have same: "deliver_chunks ch tb repr ?cs (int (k * bs) + 1 + int (length ?batch)) log1
      = deliver_chunks ch tb repr ?cs (int (Suc k * bs) + 1) log1"
  proof (cases "length ?batch = bs")
    case True
    then have "int (k * bs) + 1 + int (length ?batch) = int (Suc k * bs) + 1" by simp
    then show ?thesis by (simp only:)
  next
    case False
    then have "length ?rest < bs" by auto
    then have "drop bs ?rest = []" by simp
    with dd have "?cs = []" by (simp add: chunks_Nil)
    then show ?thesis by simp
  qed
  obtain oks log2 where dc: "deliver_chunks ch tb repr ?cs (int (Suc k * bs) + 1) log1 = (oks, log2)"
    by (cases "deliver_chunks ch tb repr ?cs (int (Suc k * bs) + 1) log1") auto
  have step: "send_batches ch tb repr projects bs (map (\<lambda>j. j * bs) [k ..< ?m]) sent log =
      send_batches ch tb repr projects bs (map (\<lambda>j. j * bs) [Suc k ..< ?m])
        (sent + (if ok then length ?batch else 0)) log1"
    unfolding up using sm by (cases ok) (simp_all add: Let_def)
  also from Suc.hyps(1) [OF d, of "sent + (if ok then length ?batch else 0)" log1] dc
  have "\<dots> = (sent + (if ok then length ?batch else 0) + delivered_count ?cs oks, log2)" by simp
  also have "\<dots> = (sent + delivered_count (?batch # ?cs) (ok # oks), log2)"
    by (simp add: delivered_count_Cons)
  finally show ?case unfolding cs using sm same dc by simp
qed


text \<open>
  C9 (batch delivery count). For a positive batch size, \<open>send_projects_batch\<close> returns
  normally. Its result is described by the partition of the input into consecutive chunks of
  at most \<open>batch_size\<close> projects (\<open>chunks\<close>), each formatted with the running start number
  and sent in order (\<open>deliver_chunks\<close>): the count is the sum of the sizes of the chunks whose
  send succeeded (\<open>delivered_count\<close>), a failed chunk adding nothing, and it is at most the
  number of projects. The default batch size is 5.
\<close>

theorem send_projects_batch_count:
  assumes "0 < batch_size"
  shows "send_projects_batch ch tb repr projects batch_size log =
           Inr (delivered_count (chunks (nat batch_size) projects)
                  (fst (deliver_chunks ch tb repr (chunks (nat batch_size) projects) 1 log)),
                snd (deliver_chunks ch tb repr (chunks (nat batch_size) projects) 1 log)) \<and>
         concat (chunks (nat batch_size) projects) = projects \<and>
         (\<forall>c \<in> set (chunks (nat batch_size) projects). c \<noteq> [] \<and> int (length c) \<le> batch_size) \<and>
         length (fst (deliver_chunks ch tb repr (chunks (nat batch_size) projects) 1 log))
           = length (chunks (nat batch_size) projects) \<and>
         delivered_count (chunks (nat batch_size) projects)
           (fst (deliver_chunks ch tb repr (chunks (nat batch_size) projects) 1 log)) \<le> length projects \<and>
         send_projects_batch_default ch tb repr projects log =
           send_projects_batch ch tb repr projects 5 log"
proof -
  let ?bs = "nat batch_size"
  let ?cs = "chunks ?bs projects"
  let ?r = "deliver_chunks ch tb repr ?cs 1 log"
  from assms have bs: "0 < ?bs" by simp
  have "send_batches ch tb repr projects ?bs (range_step (length projects) ?bs) 0 log
      = (delivered_count ?cs (fst ?r), snd ?r)"
    using send_batches_chunks [OF bs, of ch tb repr projects 0 0 log]
    by (simp add: range_step_def split: prod.splits)
  with assms have a: "send_projects_batch ch tb repr projects batch_size log
      = Inr (delivered_count ?cs (fst ?r), snd ?r)"
    by (simp add: send_projects_batch_def)
  have b: "concat ?cs = projects" by (rule chunks_concat [OF bs])
  have "c \<noteq> [] \<and> int (length c) \<le> batch_size" if "c \<in> set ?cs" for c
    using chunks_sizes [OF that] assms by linarith
  then have c: "\<forall>c \<in> set ?cs. c \<noteq> [] \<and> int (length c) \<le> batch_size" by blast
  have d: "length (fst ?r) = length ?cs" by (rule deliver_chunks_length)
  from delivered_count_le [of ?cs "fst ?r"] b
  have e: "delivered_count ?cs (fst ?r) \<le> length projects" by simp
  have f: "send_projects_batch_default ch tb repr projects log =
           send_projects_batch ch tb repr projects 5 log"
    by (simp add: send_projects_batch_default_def)
  from a b c d e f show ?thesis by blast
qed

lemma three_projects_chunks: "chunks 2 [p1, p2, p3] = [[p1, p2], [p3]]"
  by (simp add: chunks_step chunks_Nil)

lemma batch_message_short:
  "length (format_projects_batch (\<lambda>_. []) [[], []] 1) \<le> hard_limit \<and>
   length (format_projects_batch (\<lambda>_. []) [[]] 3) \<le> hard_limit"
  by (simp add: format_projects_batch_def format_project_entry_def str_int_def str_nat.simps
      py_def dict_get_def escape_html_def py_str_def replace_char_def hard_limit_def Let_def)

theorem send_projects_batch_count_witness:
  "(0::int) < 2 \<and>
   map_sum id fst
     (send_projects_batch (\<lambda>log p. log = []) \<lparr>bot_token = [], chat_id = []\<rparr> (\<lambda>_. [])
        [[], [], []] 2 []) = Inr 2 \<and>
   chunks (nat 2) [[], [], [] :: pydict] = [[[], []], [[]]]"
proof -
  have c: "chunks (nat 2) [[], [], [] :: pydict] = [[[], []], [[]]]"
    using three_projects_chunks [of "[]" "[]" "[]"] by simp
  have "fst (deliver_chunks (\<lambda>log p. log = []) \<lparr>bot_token = [], chat_id = []\<rparr> (\<lambda>_. [])
          [[[], []], [[]]] 1 []) = [True, False]"
    using batch_message_short by (simp add: send_message_short)
  then have "delivered_count [[[], []], [[] :: pydict]]
      (fst (deliver_chunks (\<lambda>log p. log = []) \<lparr>bot_token = [], chat_id = []\<rparr> (\<lambda>_. [])
          [[[], []], [[]]] 1 [])) = 2"
    by (simp add: delivered_count_def)
  with send_projects_batch_count [of 2 "\<lambda>log p. log = []" "\<lparr>bot_token = [], chat_id = []\<rparr>"
      "\<lambda>_. []" "[[], [], []]" "[]"] c
  show ?thesis by simp
qed

section \<open>Extractor\<close>

text \<open>
  Exceptions are values: a computation returns \<open>Inl e\<close> when it raises \<open>e\<close>, and
  \<open>bind_result\<close> passes an exception on. \<open>py_get\<close> is the method call \<open>x.get(k, dflt)\<close>, which
  only a dict has; \<open>py_contains\<close> is \<open>k in x\<close> and \<open>py_getitem\<close> is \<open>x[k]\<close> for a string \<open>k\<close>;
  \<open>py_iter\<close> is what a \<open>for\<close> loop over \<open>x\<close> visits; \<open>dict_set\<close> is the assignment \<open>d[k] = v\<close>.
\<close>

definition bind_result :: "error + 'a \<Rightarrow> ('a \<Rightarrow> error + 'b) \<Rightarrow> error + 'b" where
  "bind_result r f = (case r of Inl e \<Rightarrow> Inl e | Inr x \<Rightarrow> f x)"

fun py_get :: "pyval \<Rightarrow> pystr \<Rightarrow> pyval \<Rightarrow> error + pyval" where
  "py_get (PDict d) k dflt = Inr (dict_get d k dflt)"
| "py_get _ k dflt = Inl AttributeError"

fun contains_sub :: "pystr \<Rightarrow> pystr \<Rightarrow> bool" where
  "contains_sub k [] \<longleftrightarrow> k = []"
| "contains_sub k (c # s) \<longleftrightarrow> take (length k) (c # s) = k \<or> contains_sub k s"

fun py_contains :: "pystr \<Rightarrow> pyval \<Rightarrow> error + bool" where
  "py_contains k (PDict d) = Inr (map_of d k \<noteq> None)"
| "py_contains k (PList xs) = Inr (PStr k \<in> set xs)"
| "py_contains k (PStr s) = Inr (contains_sub k s)"
| "py_contains k _ = Inl TypeError"

fun py_getitem :: "pyval \<Rightarrow> pystr \<Rightarrow> error + pyval" where
  "py_getitem (PDict d) k = (case map_of d k of None \<Rightarrow> Inl KeyError | Some v \<Rightarrow> Inr v)"
| "py_getitem _ k = Inl TypeError"

fun py_iter :: "pyval \<Rightarrow> error + pyval list" where
  "py_iter (PList xs) = Inr xs"
| "py_iter (PDict d) = Inr (map (\<lambda>(k, v). PStr k) d)"
| "py_iter (PStr s) = Inr (map (\<lambda>c. PStr [c]) s)"
| "py_iter _ = Inl TypeError"

definition dict_set :: "pydict \<Rightarrow> pystr \<Rightarrow> pyval \<Rightarrow> pydict" where
  "dict_set d k v =
     (if map_of d k = None then d @ [(k, v)]
      else map (\<lambda>(k', v'). if k' = k then (k', v) else (k', v')) d)"

text \<open>
  \<open>KworkParser._parse_project_data\<close>. \<open>project_fields\<close> is the dict literal the method
  starts with, \<open>buyer_fields\<close> and \<open>buyer_statistics\<close> build the \<open>buyer\<close> entry when the raw
  entry has a \<open>user\<close>. The method catches every exception of its body and returns \<open>None\<close>
  then. \<open>base_url\<close> is the parser's \<open>self.base_url\<close>.
\<close>

definition project_fields :: "(pyval \<Rightarrow> pystr) \<Rightarrow> pystr \<Rightarrow> pydict \<Rightarrow> pydict" where
  "project_fields repr base_url d =
     [(py ''id'', dict_get d (py ''id'') PNone),
      (py ''name'', dict_get d (py ''name'') (PStr [])),
      (py ''url'', PStr (base_url @ py ''/projects/'' @ py_str repr (dict_get d (py ''id'') (PStr [])))),
      (py ''description'', dict_get d (py ''description'') (PStr [])),
      (py ''price_limit'', dict_get d (py ''priceLimit'') (PStr [])),
      (py ''possible_price_limit'', dict_get d (py ''possiblePriceLimit'') (PStr [])),
      (py ''category_id'', dict_get d (py ''category_id'') (PStr [])),
      (py ''status'', dict_get d (py ''status'') (PStr [])),
      (py ''time_left'', dict_get d (py ''timeLeft'') (PStr [])),
      (py ''offers_count'', dict_get d (py ''views_dirty'') (PInt 0)),
      (py ''date_create'', dict_get d (py ''date_create'') (PStr [])),
      (py ''date_active'', dict_get d (py ''date_active'') (PStr [])),
      (py ''date_expire'', dict_get d (py ''date_expire'') (PStr [])),
      (py ''kwork_count'', dict_get d (py ''kwork_count'') (PInt 0)),
      (py ''is_higher_price'', dict_get d (py ''isHigherPrice'') (PBool False))]"

definition buyer_fields :: "(pyval \<Rightarrow> pystr) \<Rightarrow> pystr \<Rightarrow> pyval \<Rightarrow> error + pydict" where
  "buyer_fields repr base_url user =
     bind_result (py_get user (py ''username'') (PStr [])) (\<lambda>username.
     bind_result (py_get user (py ''USERID'') (PStr [])) (\<lambda>user_id.
     bind_result (py_get user (py ''username'') (PStr [])) (\<lambda>username'.
     bind_result (py_get user (py ''profilepicture'') (PStr [])) (\<lambda>avatar.
       Inr [(py ''username'', username),
            (py ''user_id'', user_id),
            (py ''profile_url'', PStr (base_url @ py ''/user/'' @ py_str repr username')),
            (py ''avatar'', avatar)]))))"

definition buyer_statistics :: "pyval \<Rightarrow> pydict \<Rightarrow> error + pydict" where
  "buyer_statistics user buyer =
     bind_result (py_contains (py ''data'') user) (\<lambda>has_data.
       if has_data then
         bind_result (py_getitem user (py ''data'')) (\<lambda>user_data.
         bind_result (py_get user_data (py ''wants_count'') (PStr (py ''0''))) (\<lambda>wants_count.
         bind_result (py_get user_data (py ''wants_hired_percent'') (PStr (py ''0''))) (\<lambda>hired_percent.
           Inr (dict_set (dict_set buyer (py ''wants_count'') wants_count)
                  (py ''hired_percent'') hired_percent))))
       else Inr buyer)"

definition parse_project_body :: "(pyval \<Rightarrow> pystr) \<Rightarrow> pystr \<Rightarrow> pyval \<Rightarrow> error + pydict" where
  "parse_project_body repr base_url data =
     (case data of
        PDict d \<Rightarrow>
          (let project = project_fields repr base_url d in
           if map_of d (py ''user'') \<noteq> None then
             bind_result (py_getitem data (py ''user'')) (\<lambda>user.
             bind_result (buyer_fields repr base_url user) (\<lambda>buyer.
             bind_result (buyer_statistics user buyer) (\<lambda>buyer.
               Inr (dict_set project (py ''buyer'') (PDict buyer)))))
           else Inr project)
      | _ \<Rightarrow> Inl AttributeError)"

definition parse_project_data :: "(pyval \<Rightarrow> pystr) \<Rightarrow> pystr \<Rightarrow> pyval \<Rightarrow> pydict option" where
  "parse_project_data repr base_url data =
     (case parse_project_body repr base_url data of
        Inl e \<Rightarrow> None
      | Inr project \<Rightarrow> Some project)"


text \<open>
  \<open>KworkParser._extract_projects_from_js\<close>. The regular-expression search for the anchor
  and \<open>json.loads\<close> are library functions and parameters of the model: \<open>re_search html\<close>
  is group 1 of the match (\<open>None\<close> when the pattern does not match), \<open>json_loads\<close> returns
  the decoded value or the exception it raises.
\<close>

definition projects_raw :: "pyval \<Rightarrow> error + pyval option" where
  "projects_raw wants_list =
     bind_result (py_contains (py ''pagination'') wants_list) (\<lambda>has_pagination.
     bind_result
       (if has_pagination then
          bind_result (py_getitem wants_list (py ''pagination'')) (\<lambda>pagination.
            py_contains (py ''data'') pagination)
        else Inr False) (\<lambda>paginated.
       if paginated then
         bind_result (py_getitem wants_list (py ''pagination'')) (\<lambda>pagination.
         bind_result (py_getitem pagination (py ''data'')) (\<lambda>data. Inr (Some data)))
       else
         bind_result (py_contains (py ''wants'') wants_list) (\<lambda>has_wants.
           if has_wants then
             bind_result (py_getitem wants_list (py ''wants'')) (\<lambda>wants. Inr (Some wants))
           else Inr None)))"

fun collect_projects :: "(pyval \<Rightarrow> pystr) \<Rightarrow> pystr \<Rightarrow> pyval list \<Rightarrow> pydict list" where
  "collect_projects repr base_url [] = []"
| "collect_projects repr base_url (proj # raw) =
     (case parse_project_data repr base_url proj of
        None \<Rightarrow> collect_projects repr base_url raw
      | Some project \<Rightarrow>
          if truthy (PDict project) then project # collect_projects repr base_url raw
          else collect_projects repr base_url raw)"

definition extract_body ::
  "(pystr \<Rightarrow> pystr option) \<Rightarrow> (pystr \<Rightarrow> error + pyval) \<Rightarrow> (pyval \<Rightarrow> pystr) \<Rightarrow> pystr \<Rightarrow> pystr \<Rightarrow>
     error + pydict list" where
  "extract_body re_search json_loads repr base_url html =
     (case re_search html of
        None \<Rightarrow> Inr []
      | Some block \<Rightarrow>
          bind_result (json_loads block) (\<lambda>state_data.
          bind_result (py_contains (py ''wantsListData'') state_data) (\<lambda>has_list.
            if \<not> has_list then Inr []
            else
              bind_result (py_getitem state_data (py ''wantsListData'')) (\<lambda>wants_list.
              bind_result (projects_raw wants_list) (\<lambda>found.
                case found of
                  None \<Rightarrow> Inr []
                | Some raw \<Rightarrow>
                    bind_result (py_iter raw) (\<lambda>entries.
                      Inr (collect_projects repr base_url entries)))))))"

definition extract_projects_from_js ::
  "(pystr \<Rightarrow> pystr option) \<Rightarrow> (pystr \<Rightarrow> error + pyval) \<Rightarrow> (pyval \<Rightarrow> pystr) \<Rightarrow> pystr \<Rightarrow> pystr \<Rightarrow>
     pydict list" where
  "extract_projects_from_js re_search json_loads repr base_url html =
     (case extract_body re_search json_loads repr base_url html of
        Inl e \<Rightarrow> []
      | Inr projects \<Rightarrow> projects)"

lemma map_of_dict_set_other: "k \<noteq> k' \<Longrightarrow> map_of (dict_set d k' v) k = map_of d k"
proof (cases "map_of d k' = None")
  case True
  assume "k \<noteq> k'"
  with True show ?thesis by (simp add: dict_set_def map_add_def split: option.splits)
next
  case False
  assume ne: "k \<noteq> k'"
  have "map_of (map (\<lambda>(a, b). if a = k' then (a, v) else (a, b)) d) k = map_of d k"
    using ne by (induction d) auto
  with False show ?thesis by (auto simp: dict_set_def)
qed

lemma parse_project_data_shape:
  assumes "parse_project_data repr base_url (PDict d) = Some project"
  shows "project = project_fields repr base_url d \<or>
         (\<exists>buyer. project = dict_set (project_fields repr base_url d) (py ''buyer'') (PDict buyer))"
  using assms
  by (auto simp: parse_project_data_def parse_project_body_def bind_result_def Let_def
      split: sum.splits if_splits)

lemma project_fields_lookup:
  "map_of (project_fields repr base_url d) (py ''id'') = Some (dict_get d (py ''id'') PNone) \<and>
   map_of (project_fields repr base_url d) (py ''name'') = Some (dict_get d (py ''name'') (PStr [])) \<and>
   map_of (project_fields repr base_url d) (py ''url'') =
     Some (PStr (base_url @ py ''/projects/'' @ py_str repr (dict_get d (py ''id'') (PStr [])))) \<and>
   map_of (project_fields repr base_url d) (py ''description'') =
     Some (dict_get d (py ''description'') (PStr [])) \<and>
   map_of (project_fields repr base_url d) (py ''price_limit'') =
     Some (dict_get d (py ''priceLimit'') (PStr [])) \<and>
   map_of (project_fields repr base_url d) (py ''possible_price_limit'') =
     Some (dict_get d (py ''possiblePriceLimit'') (PStr [])) \<and>
   map_of (project_fields repr base_url d) (py ''category_id'') =
     Some (dict_get d (py ''category_id'') (PStr [])) \<and>
   map_of (project_fields repr base_url d) (py ''status'') = Some (dict_get d (py ''status'') (PStr [])) \<and>
   map_of (project_fields repr base_url d) (py ''time_left'') =
     Some (dict_get d (py ''timeLeft'') (PStr [])) \<and>
   map_of (project_fields repr base_url d) (py ''offers_count'') =
     Some (dict_get d (py ''views_dirty'') (PInt 0)) \<and>
   map_of (project_fields repr base_url d) (py ''date_create'') =
     Some (dict_get d (py ''date_create'') (PStr [])) \<and>
   map_of (project_fields repr base_url d) (py ''date_active'') =
     Some (dict_get d (py ''date_active'') (PStr [])) \<and>
   map_of (project_fields repr base_url d) (py ''date_expire'') =
     Some (dict_get d (py ''date_expire'') (PStr [])) \<and>
   map_of (project_fields repr base_url d) (py ''kwork_count'') =
     Some (dict_get d (py ''kwork_count'') (PInt 0)) \<and>
   map_of (project_fields repr base_url d) (py ''is_higher_price'') =
     Some (dict_get d (py ''isHigherPrice'') (PBool False))"
  by (simp add: project_fields_def py_def)


lemma parse_project_data_no_user:
  "map_of d (py ''user'') = None \<Longrightarrow>
     parse_project_data repr base_url (PDict d) = Some (project_fields repr base_url d)"
  by (simp add: parse_project_data_def parse_project_body_def Let_def)

lemma parse_project_data_fields:
  assumes "parse_project_data repr base_url (PDict d) = Some project" and "k \<noteq> py ''buyer''"
  shows "map_of project k = map_of (project_fields repr base_url d) k"
  using parse_project_data_shape [OF assms(1)] map_of_dict_set_other [OF assms(2)] by auto

text \<open>
  C5 (extractor defaults), as the code has it. A raw entry without a \<open>user\<close> object is always
  mapped to a record, and every record produced from a raw entry has the fifteen fields of
  \<open>project_fields\<close>: each field other than the identifier holds the raw value, or its default
  (the empty string, \<open>0\<close> or \<open>False\<close>) when the raw entry lacks it; the identifier holds the
  raw value, and \<open>None\<close> when the raw entry lacks it.
\<close>

theorem parse_project_data_defaults:
  "(map_of d (py ''user'') = None \<longrightarrow>
      parse_project_data repr base_url (PDict d) = Some (project_fields repr base_url d)) \<and>
   (parse_project_data repr base_url (PDict d) = Some project \<longrightarrow>
      (\<forall>k. k \<noteq> py ''buyer'' \<longrightarrow> map_of project k = map_of (project_fields repr base_url d) k)) \<and>
   map_of (project_fields repr base_url d) (py ''id'') = Some (dict_get d (py ''id'') PNone) \<and>
   map_of (project_fields repr base_url d) (py ''name'') = Some (dict_get d (py ''name'') (PStr [])) \<and>
   map_of (project_fields repr base_url d) (py ''url'') =
     Some (PStr (base_url @ py ''/projects/'' @ py_str repr (dict_get d (py ''id'') (PStr [])))) \<and>
   map_of (project_fields repr base_url d) (py ''description'') =
     Some (dict_get d (py ''description'') (PStr [])) \<and>
   map_of (project_fields repr base_url d) (py ''price_limit'') =
     Some (dict_get d (py ''priceLimit'') (PStr [])) \<and>
   map_of (project_fields repr base_url d) (py ''possible_price_limit'') =
     Some (dict_get d (py ''possiblePriceLimit'') (PStr [])) \<and>
   map_of (project_fields repr base_url d) (py ''category_id'') =
     Some (dict_get d (py ''category_id'') (PStr [])) \<and>
   map_of (project_fields repr base_url d) (py ''status'') = Some (dict_get d (py ''status'') (PStr [])) \<and>
   map_of (project_fields repr base_url d) (py ''time_left'') =
     Some (dict_get d (py ''timeLeft'') (PStr [])) \<and>
   map_of (project_fields repr base_url d) (py ''offers_count'') =
     Some (dict_get d (py ''views_dirty'') (PInt 0)) \<and>
   map_of (project_fields repr base_url d) (py ''date_create'') =
     Some (dict_get d (py ''date_create'') (PStr [])) \<and>
   map_of (project_fields repr base_url d) (py ''date_active'') =
     Some (dict_get d (py ''date_active'') (PStr [])) \<and>
   map_of (project_fields repr base_url d) (py ''date_expire'') =
     Some (dict_get d (py ''date_expire'') (PStr [])) \<and>
   map_of (project_fields repr base_url d) (py ''kwork_count'') =
     Some (dict_get d (py ''kwork_count'') (PInt 0)) \<and>
   map_of (project_fields repr base_url d) (py ''is_higher_price'') =
     Some (dict_get d (py ''isHigherPrice'') (PBool False)) \<and>
   (\<forall>k dflt. map_of d k = None \<longrightarrow> dict_get d k dflt = dflt) \<and>
   (\<forall>k v dflt. map_of d k = Some v \<longrightarrow> dict_get d k dflt = v)"
proof -
  have a: "\<forall>k dflt. map_of d k = None \<longrightarrow> dict_get d k dflt = dflt"
    by (simp add: dict_get_def)
  have b: "\<forall>k v dflt. map_of d k = Some v \<longrightarrow> dict_get d k dflt = v"
    by (simp add: dict_get_def)
  have c: "parse_project_data repr base_url (PDict d) = Some project \<longrightarrow>
      (\<forall>k. k \<noteq> py ''buyer'' \<longrightarrow> map_of project k = map_of (project_fields repr base_url d) k)"
    using parse_project_data_fields by blast
  from a b c parse_project_data_no_user [of d repr base_url] project_fields_lookup [of repr base_url d]
  show ?thesis by blast
qed

theorem parse_project_data_defaults_witness:
  "map_of [(py ''name'', PStr (py ''site''))] (py ''user'') = None \<and>
   parse_project_data (\<lambda>_. []) (py ''https://kwork.ru'') (PDict [(py ''name'', PStr (py ''site''))])
     = Some (project_fields (\<lambda>_. []) (py ''https://kwork.ru'') [(py ''name'', PStr (py ''site''))]) \<and>
   map_of (project_fields (\<lambda>_. []) (py ''https://kwork.ru'') [(py ''name'', PStr (py ''site''))])
     (py ''name'') = Some (PStr (py ''site'')) \<and>
   map_of (project_fields (\<lambda>_. []) (py ''https://kwork.ru'') [(py ''name'', PStr (py ''site''))])
     (py ''offers_count'') = Some (PInt 0) \<and>
   map_of (project_fields (\<lambda>_. []) (py ''https://kwork.ru'') [(py ''name'', PStr (py ''site''))])
     (py ''id'') = Some PNone"
proof -
  have u: "map_of [(py ''name'', PStr (py ''site''))] (py ''user'') = None" by (simp add: py_def)
  have g: "dict_get [(py ''name'', PStr (py ''site''))] (py ''name'') (PStr []) = PStr (py ''site'')"
    "dict_get [(py ''name'', PStr (py ''site''))] (py ''views_dirty'') (PInt 0) = PInt 0"
    "dict_get [(py ''name'', PStr (py ''site''))] (py ''id'') PNone = PNone"
    by (simp_all add: dict_get_def py_def)
  from parse_project_data_defaults [of "[(py ''name'', PStr (py ''site''))]" "\<lambda>_. []"
      "py ''https://kwork.ru''"] u
  show ?thesis unfolding g by blast
qed

theorem parse_project_data_null_id_counterexample:
  "map_option (\<lambda>project. map_of project (py ''id''))
     (parse_project_data (\<lambda>_. []) (py ''https://kwork.ru'') (PDict [(py ''name'', PStr (py ''site''))]))
     = Some (Some PNone)"
  by (simp add: parse_project_data_def parse_project_body_def project_fields_def dict_get_def
      py_def Let_def)

lemma extract_no_anchor:
  "re_search html = None \<Longrightarrow> extract_projects_from_js re_search json_loads repr base_url html = []"
  by (simp add: extract_projects_from_js_def extract_body_def)

lemma extract_decode_failure:
  "re_search html = Some block \<Longrightarrow> json_loads block = Inl e \<Longrightarrow>
     extract_projects_from_js re_search json_loads repr base_url html = []"
  by (simp add: extract_projects_from_js_def extract_body_def bind_result_def)

lemma extract_no_list:
  "re_search html = Some block \<Longrightarrow> json_loads block = Inr (PDict state) \<Longrightarrow>
   map_of state (py ''wantsListData'') = None \<Longrightarrow>
     extract_projects_from_js re_search json_loads repr base_url html = []"
  by (simp add: extract_projects_from_js_def extract_body_def bind_result_def)

lemma projects_raw_absent:
  assumes "map_of wants_list (py ''pagination'') = None \<or>
           (\<exists>pg. map_of wants_list (py ''pagination'') = Some (PDict pg) \<and> map_of pg (py ''data'') = None)"
    and "map_of wants_list (py ''wants'') = None"
  shows "projects_raw (PDict wants_list) = Inr None"
  using assms by (auto simp: projects_raw_def bind_result_def)

lemma extract_no_array:
  assumes "re_search html = Some block" and "json_loads block = Inr (PDict state)"
    and "map_of state (py ''wantsListData'') = Some (PDict wants_list)"
    and "map_of wants_list (py ''pagination'') = None \<or>
           (\<exists>pg. map_of wants_list (py ''pagination'') = Some (PDict pg) \<and> map_of pg (py ''data'') = None)"
    and "map_of wants_list (py ''wants'') = None"
  shows "extract_projects_from_js re_search json_loads repr base_url html = []"
  using assms(1-3) projects_raw_absent [OF assms(4,5)]
  by (simp add: extract_projects_from_js_def extract_body_def bind_result_def)

text \<open>
  C6 (extractor error totality). \<open>extract_projects_from_js\<close> returns a list for every page
  content: whatever exception the body raises is caught and the result is the empty list.
  In particular the result is empty when the anchor is missing, when the block does not
  decode, when the decoded object has no \<open>wantsListData\<close>, and when the listing array is
  absent under both shapes (\<open>pagination.data\<close> and \<open>wants\<close>).
\<close>

theorem extract_never_raises:
  "(re_search html = None \<longrightarrow>
      extract_projects_from_js re_search json_loads repr base_url html = []) \<and>
   (re_search html = Some block \<and> json_loads block = Inl e \<longrightarrow>
      extract_projects_from_js re_search json_loads repr base_url html = []) \<and>
   (re_search html = Some block \<and> json_loads block = Inr (PDict state) \<and>
    map_of state (py ''wantsListData'') = None \<longrightarrow>
      extract_projects_from_js re_search json_loads repr base_url html = []) \<and>
   (re_search html = Some block \<and> json_loads block = Inr (PDict state) \<and>
    map_of state (py ''wantsListData'') = Some (PDict wants_list) \<and>
    (map_of wants_list (py ''pagination'') = None \<or>
     (\<exists>pg. map_of wants_list (py ''pagination'') = Some (PDict pg) \<and> map_of pg (py ''data'') = None)) \<and>
    map_of wants_list (py ''wants'') = None \<longrightarrow>
      extract_projects_from_js re_search json_loads repr base_url html = []) \<and>
   (\<forall>e'. extract_body re_search json_loads repr base_url html = Inl e' \<longrightarrow>
      extract_projects_from_js re_search json_loads repr base_url html = [])"
proof -
  have "\<forall>e'. extract_body re_search json_loads repr base_url html = Inl e' \<longrightarrow>
      extract_projects_from_js re_search json_loads repr base_url html = []"
    by (simp add: extract_projects_from_js_def)
  with extract_no_anchor [of re_search html json_loads repr base_url]
    extract_decode_failure [of re_search html block json_loads e repr base_url]
    extract_no_list [of re_search html block json_loads state repr base_url]
    extract_no_array [of re_search html block json_loads state wants_list repr base_url]
  show ?thesis by blast
qed

theorem extract_never_raises_witness:
  "extract_projects_from_js (\<lambda>_. None) (\<lambda>_. Inl JSONDecodeError) (\<lambda>_. []) (py ''https://kwork.ru'')
     (py ''<html></html>'') = [] \<and>
   extract_projects_from_js (\<lambda>_. Some (py ''{bad'')) (\<lambda>_. Inl JSONDecodeError) (\<lambda>_. [])
     (py ''https://kwork.ru'') (py ''window.stateData = {bad};'') = [] \<and>
   extract_projects_from_js (\<lambda>_. Some (py ''{}'')) (\<lambda>_. Inr (PDict [])) (\<lambda>_. [])
     (py ''https://kwork.ru'') (py ''window.stateData = {};'') = [] \<and>
   extract_projects_from_js (\<lambda>_. Some (py ''{}''))
     (\<lambda>_. Inr (PDict [(py ''wantsListData'', PDict [(py ''pagination'', PDict [])])])) (\<lambda>_. [])
     (py ''https://kwork.ru'') (py ''window.stateData = {};'') = [] \<and>
   extract_body (\<lambda>_. Some (py ''[]'')) (\<lambda>_. Inr (PInt 1)) (\<lambda>_. []) (py ''https://kwork.ru'') []
     = Inl TypeError \<and>
   extract_projects_from_js (\<lambda>_. Some (py ''[]'')) (\<lambda>_. Inr (PInt 1)) (\<lambda>_. [])
     (py ''https://kwork.ru'') [] = []"
proof -
  have a: "extract_projects_from_js (\<lambda>_. None) (\<lambda>_. Inl JSONDecodeError) (\<lambda>_. [])
     (py ''https://kwork.ru'') (py ''<html></html>'') = []"
    using extract_never_raises [of "\<lambda>_. None" "py ''<html></html>''" "\<lambda>_. Inl JSONDecodeError"
        "\<lambda>_. []" "py ''https://kwork.ru''"] by simp
  have b: "extract_projects_from_js (\<lambda>_. Some (py ''{bad'')) (\<lambda>_. Inl JSONDecodeError) (\<lambda>_. [])
     (py ''https://kwork.ru'') (py ''window.stateData = {bad};'') = []"
    using extract_never_raises [of "\<lambda>_. Some (py ''{bad'')" "py ''window.stateData = {bad};''"
        "\<lambda>_. Inl JSONDecodeError" "\<lambda>_. []" "py ''https://kwork.ru''" "py ''{bad''" JSONDecodeError]
    by simp
  have c: "extract_projects_from_js (\<lambda>_. Some (py ''{}'')) (\<lambda>_. Inr (PDict [])) (\<lambda>_. [])
     (py ''https://kwork.ru'') (py ''window.stateData = {};'') = []"
    using extract_never_raises [of "\<lambda>_. Some (py ''{}'')" "py ''window.stateData = {};''"
        "\<lambda>_. Inr (PDict [])" "\<lambda>_. []" "py ''https://kwork.ru''" "py ''{}''" _ "[]"]
    by simp
  have m: "map_of [(py ''wantsListData'', PDict [(py ''pagination'', PDict [])])] (py ''wantsListData'')
        = Some (PDict [(py ''pagination'', PDict [])])"
    "map_of [(py ''pagination'', PDict [])] (py ''pagination'') = Some (PDict [])"
    "map_of [(py ''pagination'', PDict [])] (py ''wants'') = None"
    by (simp_all add: py_def)
  have d: "extract_projects_from_js (\<lambda>_. Some (py ''{}''))
     (\<lambda>_. Inr (PDict [(py ''wantsListData'', PDict [(py ''pagination'', PDict [])])])) (\<lambda>_. [])
     (py ''https://kwork.ru'') (py ''window.stateData = {};'') = []"
    using extract_never_raises [of "\<lambda>_. Some (py ''{}'')" "py ''window.stateData = {};''"
        "\<lambda>_. Inr (PDict [(py ''wantsListData'', PDict [(py ''pagination'', PDict [])])])"
        "\<lambda>_. []" "py ''https://kwork.ru''" "py ''{}''" _
        "[(py ''wantsListData'', PDict [(py ''pagination'', PDict [])])]"
        "[(py ''pagination'', PDict [])]"] m
    by simp
  have e: "extract_body (\<lambda>_. Some (py ''[]'')) (\<lambda>_. Inr (PInt 1)) (\<lambda>_. []) (py ''https://kwork.ru'') []
     = Inl TypeError"
    by (simp add: extract_body_def bind_result_def)
  with extract_never_raises [of "\<lambda>_. Some (py ''[]'')" "[]" "\<lambda>_. Inr (PInt 1)" "\<lambda>_. []"
      "py ''https://kwork.ru''"]
  have f: "extract_projects_from_js (\<lambda>_. Some (py ''[]'')) (\<lambda>_. Inr (PInt 1)) (\<lambda>_. [])
     (py ''https://kwork.ru'') [] = []" by blast
  from a b c d e f show ?thesis by blast
qed

section \<open>Record store\<close>






















































text \<open>
  \<open>int_ids ps\<close>: every record of \<open>ps\<close> has a non-zero integer identifier; \<open>id_of\<close> is that
  identifier.
\<close>

definition id_of :: "pydict \<Rightarrow> int" where
  "id_of p = (case dict_get p (py ''id'') PNone of PInt n \<Rightarrow> n | PBool b \<Rightarrow> (if b then 1 else 0) | _ \<Rightarrow> 0)"

definition int_ids :: "pydict list \<Rightarrow> bool" where
  "int_ids ps \<longleftrightarrow> list_all (\<lambda>p. case dict_get p (py ''id'') PNone of PInt n \<Rightarrow> n \<noteq> 0 | _ \<Rightarrow> False) ps"


lemma int_ids_Nil: "int_ids []"
  by (simp add: int_ids_def)

lemma int_ids_id:
  "int_ids ps \<Longrightarrow> p \<in> set ps \<Longrightarrow> id_of p \<noteq> 0 \<and> dict_get p (py ''id'') PNone = PInt (id_of p)"
  by (auto simp: int_ids_def id_of_def list_all_iff split: pyval.splits)











end
